theory Spec2Isabelle
  imports Main "HOL-Library.AList"
begin

section \<open>Outcomes of the C++ operations\<close>

text \<open>
  The operations of \<^verbatim>\<open>Shim.cpp\<close> and \<^verbatim>\<open>TransformOperations.cpp\<close> either return a value
  or stop the current unit of work. Every way of stopping that the source can reach is a
  constructor of \<open>fault\<close>; an operation that can stop returns \<open>fault + 'a\<close>, with \<open>Inl\<close>
  the fault and \<open>Inr\<close> the returned value.

  \<^item> \<open>AssertionFailure\<close>: an \<^verbatim>\<open>mt_assert(...)\<close> of the source whose condition is false.
  \<^item> \<open>NullDereference\<close>: the source calls a member through a pointer that is null
    (\<^verbatim>\<open>dex_proto->get_args()->size()\<close> in \<^verbatim>\<open>get_parameter_type\<close>, which has no null check,
    whereas \<^verbatim>\<open>infer_parameter_mapping\<close> and the constructor of \<^verbatim>\<open>ShimMethod\<close> test the same
    pointer before using it).
  \<^item> \<open>ContainerOutOfRange\<close>: \<^verbatim>\<open>at(i)\<close> of a type list with \<open>i\<close> at or past its size.
  \<^item> \<open>OperandOutOfRange\<close>: \<^verbatim>\<open>instruction->src(i)\<close> is entered with \<open>i\<close> at or past
    \<^verbatim>\<open>instruction->srcs_size()\<close>. The accessor belongs to the bytecode IR library; what it does
    with such an index is not decided by the code modelled here, so the model records that
    the call was made with that index and stops there.
\<close>

datatype fault = AssertionFailure | NullDereference | ContainerOutOfRange | OperandOutOfRange

text \<open>\<^verbatim>\<open>mt_assert(condition)\<close>: continue when the condition holds, stop otherwise.\<close>

definition mt_assert :: "bool \<Rightarrow> (fault + 'a) \<Rightarrow> fault + 'a" where
  "mt_assert condition continue = (if condition then continue else Inl AssertionFailure)"

section \<open>\<^verbatim>\<open>std::unordered_map\<close>\<close>

text \<open>
  A \<^verbatim>\<open>std::unordered_map<K, V>\<close> is modelled by the list of its (key, value) pairs in the
  order in which a range-based \<^verbatim>\<open>for\<close> visits them. The standard leaves that order open, so
  nothing below depends on it: every theorem holds for every order. The keys of a map are
  pairwise distinct (\<open>distinct (map fst m)\<close>); the three operations keep that invariant.

  \<^item> \<^verbatim>\<open>find\<close> returns the value stored under a key, if any;
  \<^item> \<^verbatim>\<open>emplace\<close> stores a pair only when the key is not yet present (the first value wins);
  \<^item> \<^verbatim>\<open>insert_or_assign\<close> stores a pair and overwrites the value of a key already present
    (the last value wins).
\<close>

type_synonym ('k, 'v) unordered_map = "('k \<times> 'v) list"

definition um_find :: "('k, 'v) unordered_map \<Rightarrow> 'k \<Rightarrow> 'v option" where
  "um_find m k = map_of m k"

definition um_emplace :: "('k, 'v) unordered_map \<Rightarrow> 'k \<Rightarrow> 'v \<Rightarrow> ('k, 'v) unordered_map" where
  "um_emplace m k v = (case map_of m k of None \<Rightarrow> m @ [(k, v)] | Some _ \<Rightarrow> m)"

definition um_insert_or_assign ::
  "('k, 'v) unordered_map \<Rightarrow> 'k \<Rightarrow> 'v \<Rightarrow> ('k, 'v) unordered_map" where
  "um_insert_or_assign m k v = AList.update k v m"

section \<open>The program model consumed by the shim layer\<close>

text \<open>
  A \<^verbatim>\<open>DexType\<close> is interned: two pointers are equal exactly when they denote the same type
  descriptor. It is modelled by its descriptor. A nullable \<^verbatim>\<open>DexType*\<close> is a
  \<open>DexType option\<close>, with \<open>None\<close> for \<^verbatim>\<open>nullptr\<close>.

  \<^verbatim>\<open>ParameterPosition\<close> and \<^verbatim>\<open>Register\<close> are unsigned integer types declared outside the
  files modelled here. A position is a zero-based index into the parameter list of a method,
  and a method has at most a few hundred parameters, far below the range of any of these
  types: no addition or increment of the source wraps around, and positions are natural
  numbers here.
\<close>

type_synonym DexType = string
type_synonym ParameterPosition = nat
type_synonym ShimParameterPosition = ParameterPosition
type_synonym Register = nat

text \<open>
  \<^verbatim>\<open>DexProto::get_args()\<close> returns a pointer to the list of declared argument types.
  The source tests it against null in two places, so it is an option here.
\<close>

record DexProto =
  get_args :: "DexType list option"

text \<open>
  A \<^verbatim>\<open>Method\<close> is read through its accessors. \<^verbatim>\<open>Method::number_of_parameters()\<close> and
  \<^verbatim>\<open>Method::parameter_type(position)\<close> are implemented outside the files modelled here, so
  they are fields of the record: the theorems below hold whatever they return.
  \<^verbatim>\<open>parameter_type\<close> returns a nullable pointer.
\<close>

record Method =
  get_class :: DexType
  get_proto :: DexProto
  is_static :: bool
  number_of_parameters :: nat
  parameter_type :: "ParameterPosition \<Rightarrow> DexType option"

text \<open>
  Modelled from the spec: \<^verbatim>\<open>Method::number_of_parameters\<close> and \<^verbatim>\<open>Method::parameter_type\<close> are
  not among the sources. The specification describes a method by its owning type, its
  parameter type sequence and its staticness, counts the implicit receiver of an instance
  method as position 0, and lets \<^verbatim>\<open>parameter_type(position)\<close> return the type at that position
  or "no such parameter" when the position is out of range. \<open>make_method\<close> builds a \<open>Method\<close>
  whose two accessors follow that description; it is used to write down concrete methods.
\<close>

definition logical_parameter_types :: "DexType \<Rightarrow> DexType list \<Rightarrow> bool \<Rightarrow> DexType list" where
  "logical_parameter_types cls args static = (if static then args else cls # args)"

text \<open>
  Modelled from the spec: a method given by its owning type, its declared argument types and
  its staticness, with \<^verbatim>\<open>number_of_parameters\<close> and \<^verbatim>\<open>parameter_type\<close> as the specification
  describes them (receiver-inclusive, "no such parameter" out of range).
\<close>

definition make_method :: "DexType \<Rightarrow> DexType list \<Rightarrow> bool \<Rightarrow> Method" where
  "make_method cls args static =
     \<lparr> get_class = cls,
       get_proto = \<lparr> get_args = Some args \<rparr>,
       is_static = static,
       number_of_parameters = length (logical_parameter_types cls args static),
       parameter_type = (\<lambda>position.
          if position < length (logical_parameter_types cls args static)
          then Some (logical_parameter_types cls args static ! position)
          else None) \<rparr>"

text \<open>
  An \<^verbatim>\<open>IRInstruction\<close> is read through \<^verbatim>\<open>srcs_size()\<close> and \<^verbatim>\<open>src(i)\<close>: it is the list of
  its source operands.
\<close>

record IRInstruction =
  srcs :: "Register list"

definition srcs_size :: "IRInstruction \<Rightarrow> nat" where
  "srcs_size instruction = length (srcs instruction)"

definition src :: "IRInstruction \<Rightarrow> nat \<Rightarrow> fault + Register" where
  "src instruction i =
     (if i < srcs_size instruction then Inr (srcs instruction ! i) else Inl OperandOutOfRange)"

text \<open>\<^verbatim>\<open>DexTypeList::at(i)\<close>: the element, or an out-of-range failure.\<close>

definition type_list_at :: "DexType list \<Rightarrow> nat \<Rightarrow> fault + DexType" where
  "type_list_at args i = (if i < length args then Inr (args ! i) else Inl ContainerOutOfRange)"

section \<open>\<^verbatim>\<open>TransformOperations.cpp\<close>\<close>

subsection \<open>Kinds and frames\<close>

text \<open>
  Modelled from the spec: the declarations of \<^verbatim>\<open>Kind\<close>, \<^verbatim>\<open>PropagationKind\<close> and
  \<^verbatim>\<open>TransformKind\<close> are not among the sources. The specification describes kinds as interned,
  immutable values of a closed union with the variants plain, propagation and transform, the
  last one owning a base kind, a list of local transforms and a list of global transforms.
  The source reads the two lists through nullable pointers (it asserts
  \<^verbatim>\<open>global_transforms() == nullptr\<close>), so they are options here.
\<close>

type_synonym TransformList = "string list"

datatype Kind =
    PlainKind string
  | PropagationKind string
  | TransformKind (base_kind: Kind)
                  (local_transforms: "TransformList option")
                  (global_transforms: "TransformList option")

text \<open>
  \<^verbatim>\<open>kind->as<T>()\<close> returns the object when it is a \<^verbatim>\<open>T\<close>, and null otherwise.
\<close>

fun as_PropagationKind :: "Kind \<Rightarrow> Kind option" where
  "as_PropagationKind (PropagationKind root) = Some (PropagationKind root)"
| "as_PropagationKind _ = None"

fun as_TransformKind :: "Kind \<Rightarrow> Kind option" where
  "as_TransformKind (TransformKind base local global) = Some (TransformKind base local global)"
| "as_TransformKind _ = None"

text \<open>
  Modelled from the spec: the class \<^verbatim>\<open>Frame\<close> is not among the sources. The specification
  describes a frame as a taint fact that carries one kind plus metadata and exposes its kind.
  \<^verbatim>\<open>propagation.kind()\<close> is a pointer that \<^verbatim>\<open>apply_propagation\<close> asserts to be non-null.
\<close>

record Frame =
  kind :: "Kind option"
  metadata :: string

subsection \<open>Taint trees\<close>

text \<open>
  Modelled from the spec: the classes \<^verbatim>\<open>Taint\<close> and \<^verbatim>\<open>TaintTree\<close> are not among the sources.
  The specification describes the content stored at a path as a set of frames, and a taint
  tree as a mapping from access paths to such contents on which a write at a path affects
  exactly the content at that path: a weak write stores the union of the new content with
  whatever is already at the path, a strong write replaces it. \<^verbatim>\<open>elements()\<close> lists the
  (path, content) pairs of the tree. A tree is represented like an unordered map: by the
  list of its pairs, with pairwise distinct paths.
\<close>

type_synonym Path = "string list"
type_synonym Taint = "Frame set"
type_synonym TaintTree = "(Path \<times> Taint) list"

datatype UpdateKind = Weak | Strong

text \<open>
  Modelled from the spec: \<^verbatim>\<open>TaintTree::elements()\<close>, not among the sources, lists the
  (path, content) pairs of the tree.
\<close>

definition elements :: "TaintTree \<Rightarrow> (Path \<times> Taint) list" where
  "elements tree = tree"

text \<open>
  Modelled from the spec: the set of paths of a tree and the content it holds at a path,
  the two notions in which the specification states what a tree is. Neither is called by the
  source.
\<close>

definition paths :: "TaintTree \<Rightarrow> Path set" where
  "paths tree = fst ` set (elements tree)"

definition content_at :: "TaintTree \<Rightarrow> Path \<Rightarrow> Taint option" where
  "content_at tree path = map_of (elements tree) path"

text \<open>
  Modelled from the spec: \<^verbatim>\<open>TaintTree::write(path, taint, update_kind)\<close>, not among the
  sources. A weak write stores the union of the new content with what is already at the
  path; a strong write replaces it; no other path is affected.
\<close>

definition write_tree :: "TaintTree \<Rightarrow> Path \<Rightarrow> Taint \<Rightarrow> UpdateKind \<Rightarrow> TaintTree" where
  "write_tree tree path taint update_kind =
     (case update_kind of
        Strong \<Rightarrow> AList.update path taint tree
      | Weak \<Rightarrow>
          (case map_of tree path of
             None \<Rightarrow> AList.update path taint tree
           | Some present \<Rightarrow> AList.update path (present \<union> taint) tree))"

subsection \<open>\<^verbatim>\<open>apply_propagation\<close>\<close>

record PropagationInfo =
  propagation_kind :: Kind
  output_taint_tree :: TaintTree

text \<open>
  The loop of \<^verbatim>\<open>apply_propagation\<close> over \<^verbatim>\<open>input_taint_tree.elements()\<close>. The argument
  \<open>apply_transform\<close> stands for \<^verbatim>\<open>taint.apply_transform(context->kinds, context->transforms, l)\<close>:
  the context decides what a list of local transforms does to a taint content.
\<close>

fun apply_propagation_loop ::
  "(TransformList option \<Rightarrow> Taint \<Rightarrow> Taint) \<Rightarrow> TransformList option \<Rightarrow>
   (Path \<times> Taint) list \<Rightarrow> TaintTree \<Rightarrow> TaintTree" where
  "apply_propagation_loop apply_transform l [] output_tree = output_tree"
| "apply_propagation_loop apply_transform l ((path, taint) # rest) output_tree =
     apply_propagation_loop apply_transform l rest
       (write_tree output_tree path (apply_transform l taint) Weak)"

definition apply_propagation ::
  "(TransformList option \<Rightarrow> Taint \<Rightarrow> Taint) \<Rightarrow> Frame \<Rightarrow> TaintTree \<Rightarrow> fault + PropagationInfo" where
  "apply_propagation apply_transform propagation input_taint_tree =
     (case kind propagation of
        None \<Rightarrow> Inl AssertionFailure
      | Some k \<Rightarrow>
          (case as_PropagationKind k of
             Some propagation_kind' \<Rightarrow>
               Inr \<lparr> propagation_kind = propagation_kind',
                     output_taint_tree = input_taint_tree \<rparr>
           | None \<Rightarrow>
               (case as_TransformKind k of
                  None \<Rightarrow> Inl AssertionFailure
                | Some transform_kind \<Rightarrow>
                    mt_assert (global_transforms transform_kind = None)
                      (case as_PropagationKind (base_kind transform_kind) of
                         None \<Rightarrow> Inl AssertionFailure
                       | Some propagation_kind' \<Rightarrow>
                           Inr \<lparr> propagation_kind = propagation_kind',
                                 output_taint_tree =
                                   apply_propagation_loop apply_transform
                                     (local_transforms transform_kind)
                                     (elements input_taint_tree) [] \<rparr>))))"

section \<open>\<^verbatim>\<open>Shim.cpp\<close>\<close>

subsection \<open>\<^verbatim>\<open>ShimMethod\<close>\<close>

text \<open>
  A private member of a C++ class ends in an underscore (\<^verbatim>\<open>method_\<close>, \<^verbatim>\<open>map_\<close>); the field of
  the record that models it ends in a prime instead (\<open>method'\<close>, \<open>map'\<close>).
\<close>

record ShimMethod =
  method' :: Method
  types_to_position' :: "(DexType, ShimParameterPosition) unordered_map"

text \<open>
  The loop of the constructor: \<^verbatim>\<open>types_to_position_.emplace(dex_argument, index++)\<close> for each
  declared argument in turn.
\<close>

fun emplace_arguments ::
  "(DexType, ShimParameterPosition) unordered_map \<Rightarrow> ShimParameterPosition \<Rightarrow> DexType list \<Rightarrow>
   (DexType, ShimParameterPosition) unordered_map" where
  "emplace_arguments types index [] = types"
| "emplace_arguments types index (dex_argument # rest) =
     emplace_arguments (um_emplace types dex_argument index) (Suc index) rest"

definition ShimMethod_ctor :: "Method \<Rightarrow> ShimMethod" where
  "ShimMethod_ctor method =
     (let (types, index) =
            (if \<not> is_static method then (um_emplace [] (get_class method) 0, Suc 0)
             else ([], 0))
      in case get_args (get_proto method) of
           None \<Rightarrow> \<lparr> method' = method, types_to_position' = types \<rparr>
         | Some dex_arguments \<Rightarrow>
             \<lparr> method' = method,
               types_to_position' = emplace_arguments types index dex_arguments \<rparr>)"

definition ShimMethod_parameter_type :: "ShimMethod \<Rightarrow> ShimParameterPosition \<Rightarrow> DexType option" where
  "ShimMethod_parameter_type shim_method argument = parameter_type (method' shim_method) argument"

definition type_position :: "ShimMethod \<Rightarrow> DexType \<Rightarrow> ShimParameterPosition option" where
  "type_position shim_method dex_type = um_find (types_to_position' shim_method) dex_type"

subsection \<open>\<^verbatim>\<open>ShimParameterMapping\<close>\<close>

text \<open>
  The members \<^verbatim>\<open>empty\<close>, \<^verbatim>\<open>at\<close> and \<^verbatim>\<open>insert\<close> are \<open>empty_mapping\<close>, \<open>at_position\<close> and
  \<open>insert_position\<close> here; the default constructor is \<open>ShimParameterMapping_ctor\<close>.
\<close>

record ShimParameterMapping =
  map' :: "(ParameterPosition, ShimParameterPosition) unordered_map"

definition ShimParameterMapping_ctor :: ShimParameterMapping where
  "ShimParameterMapping_ctor = \<lparr> map' = [] \<rparr>"

definition empty_mapping :: "ShimParameterMapping \<Rightarrow> bool" where
  "empty_mapping m = (map' m = [])"

definition contains :: "ShimParameterMapping \<Rightarrow> ParameterPosition \<Rightarrow> bool" where
  "contains m position = (um_find (map' m) position \<noteq> None)"

definition at_position :: "ShimParameterMapping \<Rightarrow> ParameterPosition \<Rightarrow> ShimParameterPosition option" where
  "at_position m parameter_position = um_find (map' m) parameter_position"

definition insert_position ::
  "ShimParameterMapping \<Rightarrow> ParameterPosition \<Rightarrow> ShimParameterPosition \<Rightarrow> ShimParameterMapping" where
  "insert_position m parameter_position shim_parameter_position =
     m \<lparr> map' := um_insert_or_assign (map' m) parameter_position shim_parameter_position \<rparr>"

subsection \<open>\<^verbatim>\<open>get_parameter_type\<close> and \<^verbatim>\<open>infer_parameter_mapping\<close>\<close>

text \<open>
  \<^verbatim>\<open>ERROR(...)\<close> and \<^verbatim>\<open>LOG(...)\<close> write a message to the log and return; they change neither
  the control flow nor any value, and are left out. The name of the target method is only
  used in those messages; it stays a parameter so that the signatures read as in the source.

  \<^verbatim>\<open>get_parameter_type\<close> returns a nullable pointer: \<open>Inr None\<close> is \<^verbatim>\<open>nullptr\<close>.
\<close>

definition get_parameter_type ::
  "string \<Rightarrow> DexType \<Rightarrow> DexProto \<Rightarrow> bool \<Rightarrow> ParameterPosition \<Rightarrow> fault + DexType option" where
  "get_parameter_type method_name dex_class dex_proto static position =
     (case get_args dex_proto of
        None \<Rightarrow> Inl NullDereference
      | Some dex_arguments \<Rightarrow>
          (let number_of_parameters' = length dex_arguments + (if static then 0 else 1) in
           if position \<ge> number_of_parameters' then Inr None
           else if \<not> static \<and> position = 0 then Inr (Some dex_class)
           else (case type_list_at dex_arguments (position - (if static then 0 else 1)) of
                   Inl f \<Rightarrow> Inl f
                 | Inr dex_type \<Rightarrow> Inr (Some dex_type))))"

text \<open>
  The loop of \<^verbatim>\<open>infer_parameter_mapping\<close>:
  \<^verbatim>\<open>for (position = 0; position < dex_arguments->size(); position++)\<close>. The read
  \<^verbatim>\<open>dex_arguments->at(position)\<close> is under the loop condition, which keeps it in range.
\<close>

function infer_parameter_mapping_loop ::
  "ShimMethod \<Rightarrow> DexType list \<Rightarrow> nat \<Rightarrow> nat \<Rightarrow> ShimParameterMapping \<Rightarrow> ShimParameterMapping" where
  "infer_parameter_mapping_loop shim_method dex_arguments first_parameter_position position
       parameter_mapping =
     (if position < length dex_arguments then
        (case type_position shim_method (dex_arguments ! position) of
           Some shim_position \<Rightarrow>
             infer_parameter_mapping_loop shim_method dex_arguments first_parameter_position
               (Suc position)
               (insert_position parameter_mapping (position + first_parameter_position)
                  shim_position)
         | None \<Rightarrow>
             infer_parameter_mapping_loop shim_method dex_arguments first_parameter_position
               (Suc position) parameter_mapping)
      else parameter_mapping)"
  by pat_completeness auto
termination
  by (relation "measure (\<lambda>(shim_method, dex_arguments, first, position, parameter_mapping).
                   length dex_arguments - position)") auto

declare infer_parameter_mapping_loop.simps [simp del]

definition infer_parameter_mapping ::
  "DexType \<Rightarrow> DexProto \<Rightarrow> bool \<Rightarrow> ShimMethod \<Rightarrow> ShimParameterMapping" where
  "infer_parameter_mapping shim_target_class shim_target_proto shim_target_is_static shim_method =
     (case get_args shim_target_proto of
        None \<Rightarrow> ShimParameterMapping_ctor
      | Some dex_arguments \<Rightarrow>
          infer_parameter_mapping_loop shim_method dex_arguments
            (if shim_target_is_static then 0 else 1) 0 ShimParameterMapping_ctor)"

subsection \<open>\<^verbatim>\<open>ShimParameterMapping::instantiate\<close>\<close>

text \<open>
  The loop over the entries of \<^verbatim>\<open>map_\<close>. Each \<^verbatim>\<open>continue\<close> of the source goes on with the
  remaining entries and leaves the result as it is.
\<close>

fun instantiate_loop ::
  "string \<Rightarrow> DexType \<Rightarrow> DexProto \<Rightarrow> bool \<Rightarrow> ShimMethod \<Rightarrow>
   (ParameterPosition \<times> ShimParameterPosition) list \<Rightarrow> ShimParameterMapping \<Rightarrow>
   fault + ShimParameterMapping" where
  "instantiate_loop shim_target_method shim_target_class shim_target_proto shim_target_is_static
       shim_method [] parameter_mapping = Inr parameter_mapping"
| "instantiate_loop shim_target_method shim_target_class shim_target_proto shim_target_is_static
       shim_method ((shim_target_position, shim_position) # rest) parameter_mapping =
     (case get_parameter_type shim_target_method shim_target_class shim_target_proto
             shim_target_is_static shim_target_position of
        Inl f \<Rightarrow> Inl f
      | Inr None \<Rightarrow>
          instantiate_loop shim_target_method shim_target_class shim_target_proto
            shim_target_is_static shim_method rest parameter_mapping
      | Inr (Some callee_type) \<Rightarrow>
          (let shim_type = ShimMethod_parameter_type shim_method shim_position in
           if Some callee_type \<noteq> shim_type then
             instantiate_loop shim_target_method shim_target_class shim_target_proto
               shim_target_is_static shim_method rest parameter_mapping
           else
             instantiate_loop shim_target_method shim_target_class shim_target_proto
               shim_target_is_static shim_method rest
               (insert_position parameter_mapping shim_target_position shim_position)))"

definition instantiate ::
  "ShimParameterMapping \<Rightarrow> string \<Rightarrow> DexType \<Rightarrow> DexProto \<Rightarrow> bool \<Rightarrow> ShimMethod \<Rightarrow>
   fault + ShimParameterMapping" where
  "instantiate this shim_target_method shim_target_class shim_target_proto shim_target_is_static
       shim_method =
     (if map' this = [] then
        Inr (infer_parameter_mapping shim_target_class shim_target_proto shim_target_is_static
               shim_method)
      else
        instantiate_loop shim_target_method shim_target_class shim_target_proto
          shim_target_is_static shim_method (map' this) ShimParameterMapping_ctor)"

subsection \<open>\<^verbatim>\<open>ShimTarget\<close>\<close>

record ShimTarget =
  call_target' :: Method
  parameter_mapping' :: ShimParameterMapping

definition receiver_register :: "ShimTarget \<Rightarrow> IRInstruction \<Rightarrow> fault + Register option" where
  "receiver_register this instruction =
     (if is_static (call_target' this) then Inr None
      else
        (case at_position (parameter_mapping' this) 0 of
           None \<Rightarrow> Inr None
         | Some receiver_position \<Rightarrow>
             mt_assert (receiver_position < srcs_size instruction)
               (case src instruction receiver_position of
                  Inl f \<Rightarrow> Inl f
                | Inr register \<Rightarrow> Inr (Some register))))"

text \<open>
  The loop of \<^verbatim>\<open>parameter_registers\<close>:
  \<^verbatim>\<open>for (position = 0; position < call_target_->number_of_parameters(); ++position)\<close>.
  Its body reads \<^verbatim>\<open>instruction->src(*shim_position)\<close> directly: the source has no
  \<^verbatim>\<open>mt_assert\<close> in this function.
\<close>

function parameter_registers_loop ::
  "ShimTarget \<Rightarrow> IRInstruction \<Rightarrow> ParameterPosition \<Rightarrow> (ParameterPosition, Register) unordered_map \<Rightarrow>
   fault + (ParameterPosition, Register) unordered_map" where
  "parameter_registers_loop this instruction position registers =
     (if position < number_of_parameters (call_target' this) then
        (case at_position (parameter_mapping' this) position of
           Some shim_position \<Rightarrow>
             (case src instruction shim_position of
                Inl f \<Rightarrow> Inl f
              | Inr register \<Rightarrow>
                  parameter_registers_loop this instruction (Suc position)
                    (um_emplace registers position register))
         | None \<Rightarrow> parameter_registers_loop this instruction (Suc position) registers)
      else Inr registers)"
  by pat_completeness auto
termination
  by (relation "measure (\<lambda>(this, instruction, position, registers).
                   number_of_parameters (call_target' this) - position)") auto

declare parameter_registers_loop.simps [simp del]

definition parameter_registers ::
  "ShimTarget \<Rightarrow> IRInstruction \<Rightarrow> fault + (ParameterPosition, Register) unordered_map" where
  "parameter_registers this instruction = parameter_registers_loop this instruction 0 []"

section \<open>Identity propagation\<close>

text \<open>
  Claim C3. For every taint tree and every propagation frame whose kind is a plain
  \<^verbatim>\<open>PropagationKind\<close>, \<^verbatim>\<open>apply_propagation\<close> returns that same kind together with a tree equal to
  the input tree. The input tree is a value that the function only reads, so it is the
  same after the call as before.
\<close>

theorem apply_propagation_identity:
  assumes "kind propagation = Some (PropagationKind root)"
  shows "apply_propagation apply_transform propagation input_taint_tree =
           Inr \<lparr> propagation_kind = PropagationKind root,
                 output_taint_tree = input_taint_tree \<rparr>"
  using assms by (simp add: apply_propagation_def)

theorem apply_propagation_identity_witness:
  "apply_propagation (\<lambda>l taint. {})
     \<lparr> kind = Some (PropagationKind ''LocalReturn''), metadata = ''Return'' \<rparr>
     [([''field''], {\<lparr> kind = Some (PlainKind ''Source''), metadata = ''Leaf'' \<rparr>})]
   = Inr \<lparr> propagation_kind = PropagationKind ''LocalReturn'',
           output_taint_tree =
             [([''field''], {\<lparr> kind = Some (PlainKind ''Source''), metadata = ''Leaf'' \<rparr>})] \<rparr>"
  using apply_propagation_identity
    [of "\<lparr> kind = Some (PropagationKind ''LocalReturn''), metadata = ''Return'' \<rparr>"
        "''LocalReturn''"]
  by simp

section \<open>Transform propagation\<close>

lemma write_tree_fresh:
  "map_of tree path = None \<Longrightarrow> write_tree tree path taint Weak = AList.update path taint tree"
  by (simp add: write_tree_def)

lemma apply_propagation_loop_map_of:
  "distinct (map fst es) \<Longrightarrow> fst ` set es \<inter> fst ` set out = {} \<Longrightarrow>
   map_of (apply_propagation_loop xf l es out) p =
     (case map_of es p of Some c \<Rightarrow> Some (xf l c) | None \<Rightarrow> map_of out p)"
proof (induction es arbitrary: out)
  case Nil
  then show ?case by simp
next
  case (Cons e es)
  obtain q c where e: "e = (q, c)" by (cases e)
  from Cons.prems e have fresh: "map_of out q = None"
    by (auto simp: map_of_eq_None_iff)
  from Cons.prems e have q_rest: "map_of es q = None"
    by (auto simp: map_of_eq_None_iff)
  have d: "distinct (map fst es)" using Cons.prems by simp
  have disj: "fst ` set es \<inter> fst ` set (AList.update q (xf l c) out) = {}"
    using Cons.prems e by (auto simp: dom_update)
  show ?case
    using Cons.IH [OF d disj] fresh q_rest e
    by (simp add: write_tree_fresh update_conv' split: option.splits)
qed

lemma apply_propagation_loop_distinct:
  "distinct (map fst out) \<Longrightarrow> distinct (map fst (apply_propagation_loop xf l es out))"
proof (induction es arbitrary: out)
  case Nil
  then show ?case by simp
next
  case (Cons e es)
  obtain q c where e: "e = (q, c)" by (cases e)
  have "distinct (map fst (write_tree out q (xf l c) Weak))"
    using Cons.prems by (simp add: write_tree_def distinct_update split: option.splits)
  then show ?case using Cons.IH e by simp
qed

text \<open>
  Claim C2. For every taint tree \<open>T\<close> and every propagation frame whose kind is a
  \<^verbatim>\<open>TransformKind\<close> with a \<^verbatim>\<open>PropagationKind\<close> as base kind, local transforms \<open>l\<close> and no global
  transforms, \<^verbatim>\<open>apply_propagation\<close> returns the base kind and an output tree that has exactly
  the paths of \<open>T\<close> and holds, at each path, the result of applying \<open>l\<close> to the content
  that \<open>T\<close> holds there. The output is built from the empty tree by weak writes. The
  second hypothesis is the invariant of a tree: each path occurs once among its elements.
\<close>

theorem apply_propagation_transform:
  assumes "kind propagation = Some (TransformKind (PropagationKind root) l None)"
    and "distinct (map fst (elements T))"
  shows "\<exists>out. apply_propagation xf propagation T =
             Inr \<lparr> propagation_kind = PropagationKind root, output_taint_tree = out \<rparr>
           \<and> paths out = paths T
           \<and> (\<forall>path. content_at out path = map_option (xf l) (content_at T path))
           \<and> distinct (map fst (elements out))"
proof -
  let ?out = "apply_propagation_loop xf l (elements T) []"
  have run: "apply_propagation xf propagation T =
      Inr \<lparr> propagation_kind = PropagationKind root, output_taint_tree = ?out \<rparr>"
    using assms(1) by (simp add: apply_propagation_def mt_assert_def)
  have content: "content_at ?out path = map_option (xf l) (content_at T path)" for path
    using apply_propagation_loop_map_of [OF assms(2), of "[]" xf l path]
    by (simp add: content_at_def elements_def split: option.splits)
  have "paths out' = {p. content_at out' p \<noteq> None}" for out'
    by (auto simp: paths_def content_at_def map_of_eq_None_iff)
  then have same_paths: "paths ?out = paths T"
    using content by simp
  have "distinct (map fst (elements ?out))"
    using apply_propagation_loop_distinct [of "[]" xf l "elements T"]
    by (simp add: elements_def)
  with run content same_paths show ?thesis by blast
qed

theorem apply_propagation_transform_witness:
  "apply_propagation
     (\<lambda>l taint. (\<lambda>f. f\<lparr> kind := map_option (\<lambda>k. TransformKind k l None) (kind f) \<rparr>) ` taint)
     \<lparr> kind = Some (TransformKind (PropagationKind ''LocalReturn'') (Some [''Sanitize'']) None),
       metadata = ''Return'' \<rparr>
     [([], {\<lparr> kind = Some (PlainKind ''Source''), metadata = ''Leaf'' \<rparr>}),
      ([''field''], {})]
   = Inr \<lparr> propagation_kind = PropagationKind ''LocalReturn'',
           output_taint_tree =
             [([], {\<lparr> kind = Some (TransformKind (PlainKind ''Source'') (Some [''Sanitize'']) None),
                      metadata = ''Leaf'' \<rparr>}),
              ([''field''], {})] \<rparr>
   \<and> paths [([], {\<lparr> kind = Some (TransformKind (PlainKind ''Source'') (Some [''Sanitize'']) None),
                      metadata = ''Leaf'' \<rparr>}),
              ([''field''], {})]
     = paths [([], {\<lparr> kind = Some (PlainKind ''Source''), metadata = ''Leaf'' \<rparr>}),
              ([''field''], {})]"
  using apply_propagation_transform
    [of "\<lparr> kind = Some (TransformKind (PropagationKind ''LocalReturn'') (Some [''Sanitize'']) None),
            metadata = ''Return'' \<rparr>"
        "''LocalReturn''" "Some [''Sanitize'']"
        "[([], {\<lparr> kind = Some (PlainKind ''Source''), metadata = ''Leaf'' \<rparr>}),
          ([''field''], {})]"
        "(\<lambda>l taint. (\<lambda>f. f\<lparr> kind := map_option (\<lambda>k. TransformKind k l None) (kind f) \<rparr>) ` taint)"]
  by (simp add: apply_propagation_def mt_assert_def elements_def paths_def write_tree_def)

section \<open>Lookups after the map operations\<close>

lemma um_emplace_find:
  "um_find (um_emplace m k v) k' =
     (case um_find m k' of Some w \<Rightarrow> Some w | None \<Rightarrow> if k' = k then Some v else None)"
  by (auto simp: um_find_def um_emplace_def map_add_def split: option.splits)

lemma um_emplace_distinct:
  "distinct (map fst m) \<Longrightarrow> distinct (map fst (um_emplace m k v))"
  by (auto simp: um_emplace_def map_of_eq_None_iff split: option.splits)

lemma um_insert_or_assign_distinct:
  "distinct (map fst m) \<Longrightarrow> distinct (map fst (um_insert_or_assign m k v))"
  by (simp add: um_insert_or_assign_def distinct_update)

lemma um_find_Nil: "um_find [] k = None"
  by (simp add: um_find_def)

lemma um_insert_or_assign_find:
  "um_find (um_insert_or_assign m k v) k' = (if k' = k then Some v else um_find m k')"
  by (simp add: um_find_def um_insert_or_assign_def update_conv')

lemma at_position_insert_position:
  "at_position (insert_position m a b) p = (if p = a then Some b else at_position m p)"
  by (simp add: at_position_def insert_position_def um_insert_or_assign_find)

lemma at_position_ctor: "at_position ShimParameterMapping_ctor p = None"
  by (simp add: at_position_def ShimParameterMapping_ctor_def um_find_def)

section \<open>The type index of a \<^verbatim>\<open>ShimMethod\<close>\<close>

lemma emplace_arguments_find:
  "um_find (emplace_arguments types index args) t =
     (case um_find types t of
        Some i \<Rightarrow> Some i
      | None \<Rightarrow> if t \<in> set args then Some (index + length (takeWhile (\<lambda>x. x \<noteq> t) args)) else None)"
proof (induction args arbitrary: types index)
  case Nil
  then show ?case by (simp split: option.splits)
next
  case (Cons a args)
  show ?case
    by (simp add: Cons.IH um_emplace_find split: option.splits)
qed

lemma type_position_ctor:
  assumes "seq = (if is_static m then [] else [get_class m]) @
                 (case get_args (get_proto m) of None \<Rightarrow> [] | Some args \<Rightarrow> args)"
  shows "type_position (ShimMethod_ctor m) t =
           (if t \<in> set seq then Some (length (takeWhile (\<lambda>x. x \<noteq> t) seq)) else None)"
  using assms
  by (auto simp: type_position_def ShimMethod_ctor_def emplace_arguments_find um_emplace_find
        um_find_Nil split: option.splits)

lemma first_index_props:
  "t \<in> set seq \<Longrightarrow>
     length (takeWhile (\<lambda>x. x \<noteq> t) seq) < length seq \<and>
     seq ! length (takeWhile (\<lambda>x. x \<noteq> t) seq) = t \<and>
     (\<forall>j < length (takeWhile (\<lambda>x. x \<noteq> t) seq). seq ! j \<noteq> t)"
proof (induction seq)
  case Nil
  then show ?case by simp
next
  case (Cons a seq)
  show ?case
  proof (cases "a = t")
    case True
    then show ?thesis by simp
  next
    case False
    with Cons have IH: "length (takeWhile (\<lambda>x. x \<noteq> t) seq) < length seq \<and>
      seq ! length (takeWhile (\<lambda>x. x \<noteq> t) seq) = t \<and>
      (\<forall>j < length (takeWhile (\<lambda>x. x \<noteq> t) seq). seq ! j \<noteq> t)" by simp
    with False show ?thesis by (auto simp: nth_Cons split: nat.splits)
  qed
qed

text \<open>
  Claim C9. Let \<open>seq\<close> be the receiver-inclusive sequence of parameter types of a method:
  its class first when the method is not static, then its declared argument types. The index
  built by the constructor of \<^verbatim>\<open>ShimMethod\<close> answers \<^verbatim>\<open>type_position(t)\<close> with the first (lowest)
  position of \<open>seq\<close> that holds \<open>t\<close>, and with "not found" for a type that does not occur in
  \<open>seq\<close>.
\<close>

theorem type_position_first:
  assumes "seq = (if is_static m then [] else [get_class m]) @
                 (case get_args (get_proto m) of None \<Rightarrow> [] | Some args \<Rightarrow> args)"
  shows "(t \<notin> set seq \<longrightarrow> type_position (ShimMethod_ctor m) t = None) \<and>
         (t \<in> set seq \<longrightarrow>
            (\<exists>i. type_position (ShimMethod_ctor m) t = Some i \<and> i < length seq \<and> seq ! i = t \<and>
                 (\<forall>j<i. seq ! j \<noteq> t)))"
  using type_position_ctor [OF assms, of t] first_index_props [of t seq]
  by auto

theorem type_position_first_witness:
  "type_position (ShimMethod_ctor (make_method ''LShim;'' [''I'', ''LA;'', ''I''] False)) ''I''
     = Some 1
   \<and> type_position (ShimMethod_ctor (make_method ''LShim;'' [''I'', ''LA;'', ''I''] False)) ''LShim;''
     = Some 0
   \<and> type_position (ShimMethod_ctor (make_method ''LShim;'' [''I'', ''LA;'', ''I''] False)) ''J''
     = None"
  using type_position_first
    [of "[''LShim;'', ''I'', ''LA;'', ''I'']"
        "make_method ''LShim;'' [''I'', ''LA;'', ''I''] False" "''I''"]
  by (simp add: type_position_def ShimMethod_ctor_def make_method_def um_find_def um_emplace_def)

section \<open>Inference of a parameter mapping\<close>

lemma infer_parameter_mapping_loop_at:
  "at_position (infer_parameter_mapping_loop sm args first k pm) p =
     (if first + k \<le> p \<and> p - first < length args \<and> type_position sm (args ! (p - first)) \<noteq> None
      then type_position sm (args ! (p - first))
      else at_position pm p)"
proof (induction sm args first k pm rule: infer_parameter_mapping_loop.induct)
  case (1 sm args first k pm)
  show ?case
  proof (cases "k < length args")
    case False
    then show ?thesis
      by (subst infer_parameter_mapping_loop.simps) auto
  next
    case True
    show ?thesis
    proof (cases "type_position sm (args ! k)")
      case None
      have "p - first = k" if "first + k \<le> p" "\<not> first + Suc k \<le> p" for p
        using that by arith
      then show ?thesis
        using True None "1.IH"(1) [OF True None]
        by (subst infer_parameter_mapping_loop.simps) (auto simp: not_le)
    next
      case (Some sp)
      have eq: "p - first = k \<longleftrightarrow> p = k + first" if "first + k \<le> p" for p
        using that by arith
      show ?thesis
        using True Some "1.IH"(2) [OF True Some]
        by (subst infer_parameter_mapping_loop.simps)
           (auto simp: at_position_insert_position not_le eq)
    qed
  qed
qed

text \<open>
  Claim C1 (amended). When the declared mapping is empty, \<^verbatim>\<open>instantiate\<close> returns what
  \<^verbatim>\<open>infer_parameter_mapping\<close> returns for the target signature. Inference goes through the
  declared argument types only: the argument with index \<open>i\<close> has target position \<open>i\<close> for a
  static target and \<open>i + 1\<close> for a non-static one, its type is looked up in the type index of
  the shim method (in which the receiver type of the shim method sits at position 0), and the
  entry is recorded when the type is found. No other entry is recorded: in particular target
  position 0 of a non-static target, its receiver, gets no entry from inference.
\<close>

theorem instantiate_empty_infers:
  assumes "map' this = []"
  shows "instantiate this name cls proto static sm =
           Inr (infer_parameter_mapping cls proto static sm)
         \<and> (\<forall>p. at_position (infer_parameter_mapping cls proto static sm) p =
               (case get_args proto of
                  None \<Rightarrow> None
                | Some args \<Rightarrow>
                    if (if static then 0 else 1) \<le> p \<and> p - (if static then 0 else 1) < length args
                    then type_position sm (args ! (p - (if static then 0 else 1)))
                    else None))
         \<and> (\<not> static \<longrightarrow> at_position (infer_parameter_mapping cls proto static sm) 0 = None)"
  using assms
  by (auto simp: instantiate_def infer_parameter_mapping_def infer_parameter_mapping_loop_at
        at_position_ctor split: option.splits)

theorem instantiate_empty_infers_witness:
  "instantiate \<lparr> map' = [] \<rparr> ''handle'' ''LHandler;''
       \<lparr> get_args = Some [''LA;'', ''J'', ''LShim;''] \<rparr> True
       (ShimMethod_ctor (make_method ''LShim;'' [''I'', ''LA;''] False))
     = Inr \<lparr> map' = [(0, 2), (2, 0)] \<rparr>
   \<and> at_position \<lparr> map' = [(0, 2), (2, 0)] \<rparr> 1 = None
   \<and> instantiate \<lparr> map' = [] \<rparr> ''handle'' ''LHandler;''
       \<lparr> get_args = Some [''LA;'', ''LShim;''] \<rparr> False
       (ShimMethod_ctor (make_method ''LShim;'' [''I'', ''LA;''] False))
     = Inr \<lparr> map' = [(1, 2), (2, 0)] \<rparr>
   \<and> at_position \<lparr> map' = [(1, 2), (2, 0)] \<rparr> 0 = None"
  using instantiate_empty_infers
    [of "\<lparr> map' = [] \<rparr>" "''handle''" "''LHandler;''"
        "\<lparr> get_args = Some [''LA;'', ''J'', ''LShim;''] \<rparr>" True
        "ShimMethod_ctor (make_method ''LShim;'' [''I'', ''LA;''] False)"]
    instantiate_empty_infers
    [of "\<lparr> map' = [] \<rparr>" "''handle''" "''LHandler;''"
        "\<lparr> get_args = Some [''LA;'', ''LShim;''] \<rparr>" False
        "ShimMethod_ctor (make_method ''LShim;'' [''I'', ''LA;''] False)"]
  by (simp add: instantiate_def infer_parameter_mapping_def infer_parameter_mapping_loop.simps
        type_position_def ShimMethod_ctor_def make_method_def um_emplace_def
        insert_position_def um_insert_or_assign_def
        ShimParameterMapping_ctor_def at_position_def um_find_def)

text \<open>
  Claim C1 as stated asks that the receiver of a non-static target be correlated by the same
  lookup. Here the class of the non-static target is in the type index of the shim method, at
  position 0; inference still records nothing for target position 0, only the entry for the
  declared argument.
\<close>

theorem inferred_receiver_counterexample:
  "type_position (ShimMethod_ctor (make_method ''LShim;'' [''LTarget;'', ''I''] True)) ''LTarget;''
     = Some 0
   \<and> instantiate \<lparr> map' = [] \<rparr> ''run'' ''LTarget;'' \<lparr> get_args = Some [''I''] \<rparr> False
         (ShimMethod_ctor (make_method ''LShim;'' [''LTarget;'', ''I''] True))
     = Inr \<lparr> map' = [(1, 1)] \<rparr>
   \<and> at_position \<lparr> map' = [(1, 1)] \<rparr> 0 = None"
  by (simp add: instantiate_def infer_parameter_mapping_def infer_parameter_mapping_loop.simps
        type_position_def ShimMethod_ctor_def make_method_def um_emplace_def
        insert_position_def um_insert_or_assign_def
        ShimParameterMapping_ctor_def at_position_def um_find_def)

section \<open>Instantiation of an explicit parameter mapping\<close>

text \<open>
  The declared mapping is an unordered map, so its keys are pairwise distinct; the theorems
  of this section take that invariant as a hypothesis.
\<close>

lemma get_parameter_type_total:
  "get_args proto = Some args \<Longrightarrow>
   get_parameter_type name cls proto static p =
     Inr (if p < length (logical_parameter_types cls args static)
          then Some (logical_parameter_types cls args static ! p) else None)"
  by (auto simp: get_parameter_type_def logical_parameter_types_def type_list_at_def Let_def
        nth_Cons split: nat.splits)

lemma get_parameter_type_null:
  "get_args proto = None \<Longrightarrow> get_parameter_type name cls proto static p = Inl NullDereference"
  by (simp add: get_parameter_type_def)

lemma instantiate_loop_at:
  assumes "get_args proto = Some args" and "distinct (map fst es)"
  shows "\<exists>r. instantiate_loop name cls proto static sm es pm = Inr r \<and>
             (\<forall>p. at_position r p =
                (case map_of es p of
                   Some s \<Rightarrow>
                     if get_parameter_type name cls proto static p =
                          Inr (ShimMethod_parameter_type sm s) \<and>
                        ShimMethod_parameter_type sm s \<noteq> None
                     then Some s else at_position pm p
                 | None \<Rightarrow> at_position pm p))"
  using assms(2)
proof (induction es arbitrary: pm)
  case Nil
  then show ?case by simp
next
  case (Cons e es)
  obtain p0 s0 where e: "e = (p0, s0)" by (cases e)
  from Cons.prems e have fresh: "map_of es p0 = None" and d: "distinct (map fst es)"
    by (auto simp: map_of_eq_None_iff)
  obtain ty where ty: "get_parameter_type name cls proto static p0 = Inr ty"
    using get_parameter_type_total [OF assms(1)] by blast
  show ?case
  proof (cases "ty \<noteq> None \<and> ty = ShimMethod_parameter_type sm s0")
    case True
    then obtain A where A: "ty = Some A" by auto
    from Cons.IH [OF d, of "insert_position pm p0 s0"]
    obtain r where r: "instantiate_loop name cls proto static sm es (insert_position pm p0 s0) = Inr r"
      and at: "\<forall>p. at_position r p =
                (case map_of es p of
                   Some s \<Rightarrow>
                     if get_parameter_type name cls proto static p =
                          Inr (ShimMethod_parameter_type sm s) \<and>
                        ShimMethod_parameter_type sm s \<noteq> None
                     then Some s else at_position (insert_position pm p0 s0) p
                 | None \<Rightarrow> at_position (insert_position pm p0 s0) p)"
      by blast
    have run: "instantiate_loop name cls proto static sm (e # es) pm = Inr r"
      using e ty A True r by simp
    show ?thesis
      using run at fresh e ty True
      by (auto simp: at_position_insert_position split: option.splits)
  next
    case False
    from Cons.IH [OF d, of pm]
    obtain r where r: "instantiate_loop name cls proto static sm es pm = Inr r"
      and at: "\<forall>p. at_position r p =
                (case map_of es p of
                   Some s \<Rightarrow>
                     if get_parameter_type name cls proto static p =
                          Inr (ShimMethod_parameter_type sm s) \<and>
                        ShimMethod_parameter_type sm s \<noteq> None
                     then Some s else at_position pm p
                 | None \<Rightarrow> at_position pm p)"
      by blast
    have run: "instantiate_loop name cls proto static sm (e # es) pm = Inr r"
      using e ty False r by (cases ty) auto
    show ?thesis
      using run at fresh e ty False
      by (auto split: option.splits)
  qed
qed

lemma instantiate_loop_null:
  "get_args proto = None \<Longrightarrow> es \<noteq> [] \<Longrightarrow>
   instantiate_loop name cls proto static sm es pm = Inl NullDereference"
  by (cases es) (auto simp: get_parameter_type_null)


lemma instantiate_explicit:
  assumes "map' this \<noteq> []" and "get_args proto = Some args" and "distinct (map fst (map' this))"
  shows "\<exists>r. instantiate this name cls proto static sm = Inr r \<and>
             (\<forall>p. at_position r p =
                (case at_position this p of
                   Some s \<Rightarrow>
                     if get_parameter_type name cls proto static p =
                          Inr (ShimMethod_parameter_type sm s) \<and>
                        ShimMethod_parameter_type sm s \<noteq> None
                     then Some s else None
                 | None \<Rightarrow> None))"
proof -
  from instantiate_loop_at [OF assms(2,3), of name cls static sm ShimParameterMapping_ctor]
  obtain r where run: "instantiate_loop name cls proto static sm (map' this)
                         ShimParameterMapping_ctor = Inr r"
    and at: "\<And>p. at_position r p =
                (case map_of (map' this) p of
                   Some s \<Rightarrow>
                     if get_parameter_type name cls proto static p =
                          Inr (ShimMethod_parameter_type sm s) \<and>
                        ShimMethod_parameter_type sm s \<noteq> None
                     then Some s else at_position ShimParameterMapping_ctor p
                 | None \<Rightarrow> at_position ShimParameterMapping_ctor p)"
    by blast
  have "instantiate this name cls proto static sm = Inr r"
    using run assms(1) by (simp add: instantiate_def)
  moreover have "at_position r p =
                (case at_position this p of
                   Some s \<Rightarrow>
                     if get_parameter_type name cls proto static p =
                          Inr (ShimMethod_parameter_type sm s) \<and>
                        ShimMethod_parameter_type sm s \<noteq> None
                     then Some s else None
                 | None \<Rightarrow> None)" for p
    unfolding at [of p] at_position_def [of this] um_find_def
    by (auto simp: at_position_ctor split: option.splits)
  ultimately show ?thesis by blast
qed

lemma at_position_mem:
  "distinct (map fst (map' this)) \<Longrightarrow> (p, s) \<in> set (map' this) \<longleftrightarrow> at_position this p = Some s"
  by (simp add: at_position_def um_find_def)

lemma contains_at_position: "contains m p \<longleftrightarrow> at_position m p \<noteq> None"
  by (simp add: contains_def at_position_def)

text \<open>
  Claim C4. Take an entry \<open>p \<rightarrow> s\<close> of a declared mapping whose target position resolves to
  the type \<open>A\<close>. Instantiation returns a mapping; when \<^verbatim>\<open>shim_method.parameter_type(s)\<close> is not
  \<open>A\<close> the returned mapping has no entry for \<open>p\<close>, and when it is \<open>A\<close> the returned mapping
  still maps \<open>p\<close> to \<open>s\<close>.
\<close>

theorem instantiate_type_check:
  assumes "distinct (map fst (map' this))"
    and "(p, s) \<in> set (map' this)"
    and "get_parameter_type name cls proto static p = Inr (Some A)"
  shows "\<exists>r. instantiate this name cls proto static sm = Inr r \<and>
             (if ShimMethod_parameter_type sm s = Some A
              then at_position r p = Some s \<and> contains r p
              else at_position r p = None \<and> \<not> contains r p)"
proof -
  from assms(3) obtain args where args: "get_args proto = Some args"
    by (cases "get_args proto") (auto simp: get_parameter_type_null)
  from assms(2) have nonempty: "map' this \<noteq> []" by auto
  from assms(1,2) have at: "at_position this p = Some s" by (simp add: at_position_mem)
  from instantiate_explicit [OF nonempty args assms(1), of name cls static sm]
  obtain r where r: "instantiate this name cls proto static sm = Inr r"
    and r_at: "at_position r p =
                (case at_position this p of
                   Some s \<Rightarrow>
                     if get_parameter_type name cls proto static p =
                          Inr (ShimMethod_parameter_type sm s) \<and>
                        ShimMethod_parameter_type sm s \<noteq> None
                     then Some s else None
                 | None \<Rightarrow> None)"
    by blast
  from r_at at assms(3) have
    "at_position r p = (if ShimMethod_parameter_type sm s = Some A then Some s else None)"
    by auto
  with r show ?thesis by (auto simp: contains_at_position)
qed

theorem instantiate_type_check_witness:
  "instantiate \<lparr> map' = [(1, 1), (2, 1)] \<rparr> ''run'' ''LTarget;''
       \<lparr> get_args = Some [''LA;'', ''I''] \<rparr> False
       (ShimMethod_ctor (make_method ''LShim;'' [''LA;'', ''I''] False))
     = Inr \<lparr> map' = [(1, 1)] \<rparr>
   \<and> at_position \<lparr> map' = [(1, 1)] \<rparr> 1 = Some 1
   \<and> \<not> contains \<lparr> map' = [(1, 1)] \<rparr> 2"
  using instantiate_type_check
    [of "\<lparr> map' = [(1, 1), (2, 1)] \<rparr>" 1 1 "''run''" "''LTarget;''"
        "\<lparr> get_args = Some [''LA;'', ''I''] \<rparr>" False "''LA;''"
        "ShimMethod_ctor (make_method ''LShim;'' [''LA;'', ''I''] False)"]
    instantiate_type_check
    [of "\<lparr> map' = [(1, 1), (2, 1)] \<rparr>" 2 1 "''run''" "''LTarget;''"
        "\<lparr> get_args = Some [''LA;'', ''I''] \<rparr>" False "''I''"
        "ShimMethod_ctor (make_method ''LShim;'' [''LA;'', ''I''] False)"]
  by (simp add: instantiate_def get_parameter_type_def type_list_at_def
        ShimMethod_parameter_type_def ShimMethod_ctor_def make_method_def
        logical_parameter_types_def insert_position_def um_insert_or_assign_def
        ShimParameterMapping_ctor_def at_position_def contains_def um_find_def)


text \<open>
  Claim C5. Take an entry \<open>p \<rightarrow> s\<close> of a declared mapping whose target position is at or past
  the receiver-inclusive parameter count of the target (the number of declared argument
  types, plus one when the target is not static). Instantiation returns a mapping, without any
  fault; the mapping has no entry for \<open>p\<close>, and every entry of the declared mapping whose
  target position resolves to the type found at its shim position is still present.
\<close>

theorem instantiate_out_of_range:
  assumes "distinct (map fst (map' this))"
    and "get_args proto = Some args"
    and "(p, s) \<in> set (map' this)"
    and "length args + (if static then 0 else 1) \<le> p"
  shows "\<exists>r. instantiate this name cls proto static sm = Inr r \<and>
             \<not> contains r p \<and>
             (\<forall>p' s' A. (p', s') \<in> set (map' this) \<and>
                        get_parameter_type name cls proto static p' = Inr (Some A) \<and>
                        ShimMethod_parameter_type sm s' = Some A
                        \<longrightarrow> at_position r p' = Some s')"
proof -
  from assms(3) have nonempty: "map' this \<noteq> []" by auto
  from instantiate_explicit [OF nonempty assms(2,1), of name cls static sm]
  obtain r where r: "instantiate this name cls proto static sm = Inr r"
    and r_at: "\<And>q. at_position r q =
                (case at_position this q of
                   Some s \<Rightarrow>
                     if get_parameter_type name cls proto static q =
                          Inr (ShimMethod_parameter_type sm s) \<and>
                        ShimMethod_parameter_type sm s \<noteq> None
                     then Some s else None
                 | None \<Rightarrow> None)"
    by blast
  have unresolved: "get_parameter_type name cls proto static p = Inr None"
    using assms(4)
    by (auto simp: get_parameter_type_total [OF assms(2)] logical_parameter_types_def
          split: if_splits)
  have dropped: "\<not> contains r p"
    using r_at [of p] unresolved by (auto simp: contains_at_position split: option.splits)
  have kept: "at_position r p' = Some s'"
    if "(p', s') \<in> set (map' this)"
      and "get_parameter_type name cls proto static p' = Inr (Some A)"
      and "ShimMethod_parameter_type sm s' = Some A" for p' s' A
  proof -
    from that(1) have "at_position this p' = Some s'"
      by (simp add: at_position_mem [OF assms(1)])
    with r_at [of p'] that(2,3) show ?thesis by simp
  qed
  from r dropped kept show ?thesis by blast
qed

theorem instantiate_out_of_range_witness:
  "instantiate \<lparr> map' = [(5, 2), (0, 0), (2, 2)] \<rparr> ''onEvent'' ''LShim;''
       \<lparr> get_args = Some [''LA;'', ''I''] \<rparr> False
       (ShimMethod_ctor (make_method ''LShim;'' [''LA;'', ''I''] False))
     = Inr \<lparr> map' = [(0, 0), (2, 2)] \<rparr>
   \<and> \<not> contains \<lparr> map' = [(0, 0), (2, 2)] \<rparr> 5
   \<and> at_position \<lparr> map' = [(0, 0), (2, 2)] \<rparr> 0 = Some 0
   \<and> at_position \<lparr> map' = [(0, 0), (2, 2)] \<rparr> 2 = Some 2"
  using instantiate_out_of_range
    [of "\<lparr> map' = [(5, 2), (0, 0), (2, 2)] \<rparr>" "\<lparr> get_args = Some [''LA;'', ''I''] \<rparr>"
        "[''LA;'', ''I'']" 5 2 False "''onEvent''" "''LShim;''"
        "ShimMethod_ctor (make_method ''LShim;'' [''LA;'', ''I''] False)"]
  by (simp add: instantiate_def get_parameter_type_def type_list_at_def
        ShimMethod_parameter_type_def ShimMethod_ctor_def make_method_def
        logical_parameter_types_def insert_position_def um_insert_or_assign_def
        ShimParameterMapping_ctor_def at_position_def contains_def um_find_def)

text \<open>
  Claim C10. For a non-empty declared mapping, every entry of the mapping returned by
  \<^verbatim>\<open>instantiate\<close> is an entry of the declared mapping: no target position is added and none
  is bound to another shim position. A mapping is returned whenever the argument list of the
  target signature is not null.
\<close>

theorem instantiate_only_filters:
  assumes "map' this \<noteq> []" and "distinct (map fst (map' this))"
  shows "(get_args proto \<noteq> None \<longrightarrow> (\<exists>r. instantiate this name cls proto static sm = Inr r)) \<and>
         (\<forall>r p s. instantiate this name cls proto static sm = Inr r \<and> at_position r p = Some s
                    \<longrightarrow> at_position this p = Some s \<and> (p, s) \<in> set (map' this))"
proof (cases "get_args proto")
  case None
  then have "instantiate this name cls proto static sm = Inl NullDereference"
    using assms(1) by (simp add: instantiate_def instantiate_loop_null)
  with None show ?thesis by simp
next
  case (Some args)
  from instantiate_explicit [OF assms(1) Some assms(2), of name cls static sm]
  obtain r where r: "instantiate this name cls proto static sm = Inr r"
    and r_at: "\<And>q. at_position r q =
                (case at_position this q of
                   Some s \<Rightarrow>
                     if get_parameter_type name cls proto static q =
                          Inr (ShimMethod_parameter_type sm s) \<and>
                        ShimMethod_parameter_type sm s \<noteq> None
                     then Some s else None
                 | None \<Rightarrow> None)"
    by blast
  have "at_position this p = Some s" if "at_position r p = Some s" for p s
    using r_at [of p] that by (auto split: option.splits if_splits)
  with r show ?thesis by (auto simp: at_position_mem [OF assms(2)])
qed

theorem instantiate_only_filters_witness:
  "instantiate \<lparr> map' = [(1, 2), (0, 0), (3, 0)] \<rparr> ''accept'' ''LConsumer;''
       \<lparr> get_args = Some [''LA;'', ''LB;''] \<rparr> False
       (ShimMethod_ctor (make_method ''LShim;'' [''LConsumer;'', ''LA;''] True))
     = Inr \<lparr> map' = [(0, 0)] \<rparr>
   \<and> at_position \<lparr> map' = [(1, 2), (0, 0), (3, 0)] \<rparr> 0 = Some 0"
  using instantiate_only_filters
    [of "\<lparr> map' = [(1, 2), (0, 0), (3, 0)] \<rparr>" "\<lparr> get_args = Some [''LA;'', ''LB;''] \<rparr>"
        "''accept''" "''LConsumer;''" False
        "ShimMethod_ctor (make_method ''LShim;'' [''LConsumer;'', ''LA;''] True)"]
  by (simp add: instantiate_def get_parameter_type_def type_list_at_def
        ShimMethod_parameter_type_def ShimMethod_ctor_def make_method_def
        logical_parameter_types_def insert_position_def um_insert_or_assign_def
        ShimParameterMapping_ctor_def at_position_def contains_def um_find_def)

section \<open>Operand resolution of a \<^verbatim>\<open>ShimTarget\<close>\<close>

lemma src_in_range:
  "i < srcs_size instruction \<Longrightarrow> src instruction i = Inr (srcs instruction ! i)"
  by (simp add: src_def)

text \<open>
  Claim C7 (amended). \<^verbatim>\<open>receiver_register\<close> returns the instruction operand at the mapped shim
  position if and only if the target method is not static, the parameter mapping has an entry
  for target position 0 and the mapped shim position is below the number of source operands
  of the instruction. When the target is not static and the mapping has an entry for
  position 0 whose shim position is at or past the number of operands, the assertion fails.
  In every other case, and for every static target whatever the mapping holds, it returns
  none.
\<close>

theorem receiver_register_cases:
  "(is_static (call_target' this) \<or> \<not> contains (parameter_mapping' this) 0
      \<longrightarrow> receiver_register this instruction = Inr None)
   \<and> (\<forall>s. \<not> is_static (call_target' this) \<and> at_position (parameter_mapping' this) 0 = Some s \<and>
           s < srcs_size instruction
           \<longrightarrow> receiver_register this instruction = Inr (Some (srcs instruction ! s)))
   \<and> (\<forall>s. \<not> is_static (call_target' this) \<and> at_position (parameter_mapping' this) 0 = Some s \<and>
           srcs_size instruction \<le> s
           \<longrightarrow> receiver_register this instruction = Inl AssertionFailure)
   \<and> ((\<exists>register. receiver_register this instruction = Inr (Some register)) \<longleftrightarrow>
        \<not> is_static (call_target' this) \<and>
        (\<exists>s. at_position (parameter_mapping' this) 0 = Some s \<and> s < srcs_size instruction))"
  by (auto simp: receiver_register_def mt_assert_def src_def contains_at_position
        split: option.splits)

theorem receiver_register_cases_witness:
  "receiver_register
     \<lparr> call_target' = make_method ''LTarget;'' [''I''] True,
       parameter_mapping' = \<lparr> map' = [(0, 1)] \<rparr> \<rparr>
     \<lparr> srcs = [10, 11] \<rparr> = Inr None
   \<and> receiver_register
     \<lparr> call_target' = make_method ''LTarget;'' [''I''] False,
       parameter_mapping' = \<lparr> map' = [(1, 0)] \<rparr> \<rparr>
     \<lparr> srcs = [10, 11] \<rparr> = Inr None
   \<and> receiver_register
     \<lparr> call_target' = make_method ''LTarget;'' [''I''] False,
       parameter_mapping' = \<lparr> map' = [(1, 0), (0, 1)] \<rparr> \<rparr>
     \<lparr> srcs = [10, 11] \<rparr> = Inr (Some 11)
   \<and> receiver_register
     \<lparr> call_target' = make_method ''LTarget;'' [''I''] False,
       parameter_mapping' = \<lparr> map' = [(1, 0), (0, 2)] \<rparr> \<rparr>
     \<lparr> srcs = [10, 11] \<rparr> = Inl AssertionFailure"
  using receiver_register_cases
    [of "\<lparr> call_target' = make_method ''LTarget;'' [''I''] True,
            parameter_mapping' = \<lparr> map' = [(0, 1)] \<rparr> \<rparr>" "\<lparr> srcs = [10, 11] \<rparr>"]
    receiver_register_cases
    [of "\<lparr> call_target' = make_method ''LTarget;'' [''I''] False,
            parameter_mapping' = \<lparr> map' = [(1, 0)] \<rparr> \<rparr>" "\<lparr> srcs = [10, 11] \<rparr>"]
    receiver_register_cases
    [of "\<lparr> call_target' = make_method ''LTarget;'' [''I''] False,
            parameter_mapping' = \<lparr> map' = [(1, 0), (0, 1)] \<rparr> \<rparr>" "\<lparr> srcs = [10, 11] \<rparr>"]
    receiver_register_cases
    [of "\<lparr> call_target' = make_method ''LTarget;'' [''I''] False,
            parameter_mapping' = \<lparr> map' = [(1, 0), (0, 2)] \<rparr> \<rparr>" "\<lparr> srcs = [10, 11] \<rparr>"]
  by (simp add: receiver_register_def mt_assert_def src_def srcs_size_def make_method_def
        at_position_def contains_def um_find_def)

text \<open>
  Claim C7 as stated covers every target and instruction. Here the target is not static and
  the mapping has an entry for position 0, yet no operand is returned: the shim position 3
  is past the two operands of the instruction and the assertion fails.
\<close>

theorem receiver_register_counterexample:
  "\<not> is_static (call_target'
        \<lparr> call_target' = make_method ''LService;'' [] False,
          parameter_mapping' = \<lparr> map' = [(0, 3)] \<rparr> \<rparr>)
   \<and> contains (parameter_mapping'
        \<lparr> call_target' = make_method ''LService;'' [] False,
          parameter_mapping' = \<lparr> map' = [(0, 3)] \<rparr> \<rparr>) 0
   \<and> receiver_register
        \<lparr> call_target' = make_method ''LService;'' [] False,
          parameter_mapping' = \<lparr> map' = [(0, 3)] \<rparr> \<rparr>
        \<lparr> srcs = [8, 9] \<rparr> = Inl AssertionFailure"
  by (simp add: receiver_register_def mt_assert_def src_def srcs_size_def make_method_def
        at_position_def contains_def um_find_def)

lemma parameter_registers_loop_find:
  assumes "\<forall>p s. p < number_of_parameters (call_target' this) \<and>
                 at_position (parameter_mapping' this) p = Some s \<longrightarrow> s < srcs_size instruction"
  shows "\<exists>out. parameter_registers_loop this instruction k registers = Inr out \<and>
           (\<forall>p. um_find out p =
              (case um_find registers p of
                 Some r \<Rightarrow> Some r
               | None \<Rightarrow>
                   if k \<le> p \<and> p < number_of_parameters (call_target' this)
                   then map_option (\<lambda>s. srcs instruction ! s) (at_position (parameter_mapping' this) p)
                   else None)) \<and>
           (distinct (map fst registers) \<longrightarrow> distinct (map fst out))"
  using assms
proof (induction this instruction k registers rule: parameter_registers_loop.induct)
  case (1 this instruction k registers)
  show ?case
  proof (cases "k < number_of_parameters (call_target' this)")
    case False
    then show ?thesis
      by (subst parameter_registers_loop.simps) (auto split: option.splits)
  next
    case True
    show ?thesis
    proof (cases "at_position (parameter_mapping' this) k")
      case None
      from "1.IH"(1) [OF True None "1.prems"]
      obtain out where out: "parameter_registers_loop this instruction (Suc k) registers = Inr out"
        and find: "\<And>p. um_find out p =
              (case um_find registers p of
                 Some r \<Rightarrow> Some r
               | None \<Rightarrow>
                   if Suc k \<le> p \<and> p < number_of_parameters (call_target' this)
                   then map_option (\<lambda>s. srcs instruction ! s) (at_position (parameter_mapping' this) p)
                   else None)"
        and dist: "distinct (map fst registers) \<longrightarrow> distinct (map fst out)"
        by blast
      have run: "parameter_registers_loop this instruction k registers = Inr out"
        using True None out by (subst parameter_registers_loop.simps) simp
      have "um_find out p =
              (case um_find registers p of
                 Some r \<Rightarrow> Some r
               | None \<Rightarrow>
                   if k \<le> p \<and> p < number_of_parameters (call_target' this)
                   then map_option (\<lambda>s. srcs instruction ! s) (at_position (parameter_mapping' this) p)
                   else None)" for p
        using find [of p] None by (cases "p = k") (auto split: option.splits)
      with run dist show ?thesis by blast
    next
      case (Some s)
      with True "1.prems" have s: "s < srcs_size instruction" by blast
      then have rd: "src instruction s = Inr (srcs instruction ! s)" by (rule src_in_range)
      from "1.IH"(2) [OF True Some rd "1.prems"]
      obtain out where out: "parameter_registers_loop this instruction (Suc k)
                               (um_emplace registers k (srcs instruction ! s)) = Inr out"
        and find: "\<And>p. um_find out p =
              (case um_find (um_emplace registers k (srcs instruction ! s)) p of
                 Some r \<Rightarrow> Some r
               | None \<Rightarrow>
                   if Suc k \<le> p \<and> p < number_of_parameters (call_target' this)
                   then map_option (\<lambda>s. srcs instruction ! s) (at_position (parameter_mapping' this) p)
                   else None)"
        and dist: "distinct (map fst (um_emplace registers k (srcs instruction ! s)))
                     \<longrightarrow> distinct (map fst out)"
        by blast
      have run: "parameter_registers_loop this instruction k registers = Inr out"
        using True Some rd out by (subst parameter_registers_loop.simps) simp
      have "um_find out p =
              (case um_find registers p of
                 Some r \<Rightarrow> Some r
               | None \<Rightarrow>
                   if k \<le> p \<and> p < number_of_parameters (call_target' this)
                   then map_option (\<lambda>s. srcs instruction ! s) (at_position (parameter_mapping' this) p)
                   else None)" for p
        using find [of p] Some True
        by (cases "p = k") (auto simp: um_emplace_find split: option.splits)
      moreover have "distinct (map fst registers) \<longrightarrow> distinct (map fst out)"
        using dist by (simp add: um_emplace_distinct)
      ultimately show ?thesis using run by blast
    qed
  qed
qed

lemma um_keys: "fst ` set m = {k. um_find m k \<noteq> None}"
  by (auto simp: um_find_def map_of_eq_None_iff)

text \<open>
  Claim C8 (amended). Provided every shim position that the mapping gives to a target position
  below the parameter count of the target method is below the number of source operands of
  the instruction, \<^verbatim>\<open>parameter_registers\<close> returns a map whose keys are exactly the target
  positions below the parameter count for which the mapping has an entry, each bound to the
  operand at the mapped shim position; a position with no entry in the mapping is absent.
\<close>

theorem parameter_registers_partial:
  assumes "\<forall>p s. p < number_of_parameters (call_target' this) \<and>
                 at_position (parameter_mapping' this) p = Some s \<longrightarrow> s < srcs_size instruction"
  shows "\<exists>registers. parameter_registers this instruction = Inr registers \<and>
           distinct (map fst registers) \<and>
           fst ` set registers =
             {p. p < number_of_parameters (call_target' this) \<and> contains (parameter_mapping' this) p} \<and>
           (\<forall>p s. p < number_of_parameters (call_target' this) \<and>
                   at_position (parameter_mapping' this) p = Some s
                   \<longrightarrow> um_find registers p = Some (srcs instruction ! s)) \<and>
           (\<forall>p. \<not> contains (parameter_mapping' this) p \<longrightarrow> um_find registers p = None)"
proof -
  from parameter_registers_loop_find [OF assms, of 0 "[]"]
  obtain out where run: "parameter_registers this instruction = Inr out"
    and find: "\<And>p. um_find out p =
                 (if p < number_of_parameters (call_target' this)
                  then map_option (\<lambda>s. srcs instruction ! s) (at_position (parameter_mapping' this) p)
                  else None)"
    and dist: "distinct (map fst out)"
    by (auto simp: parameter_registers_def um_find_Nil)
  have keys: "fst ` set out =
      {p. p < number_of_parameters (call_target' this) \<and> contains (parameter_mapping' this) p}"
    unfolding um_keys by (auto simp: find contains_at_position)
  have bound: "um_find out p = Some (srcs instruction ! s)"
    if "p < number_of_parameters (call_target' this)"
      "at_position (parameter_mapping' this) p = Some s" for p s
    using that by (simp add: find)
  have absent: "um_find out p = None" if "\<not> contains (parameter_mapping' this) p" for p
    using that by (simp add: find contains_at_position)
  from run dist keys bound absent show ?thesis by blast
qed


theorem parameter_registers_partial_witness:
  "parameter_registers
     \<lparr> call_target' = make_method ''LTarget;'' [''I'', ''LA;''] False,
       parameter_mapping' = \<lparr> map' = [(2, 1), (0, 0), (7, 9)] \<rparr> \<rparr>
     \<lparr> srcs = [20, 21] \<rparr> = Inr [(0, 20), (2, 21)]
   \<and> um_find [(0 :: ParameterPosition, 20 :: Register), (2, 21)] 1 = None"
proof -
  have in_range:
    "\<forall>p s. p < number_of_parameters (call_target'
               \<lparr> call_target' = make_method ''LTarget;'' [''I'', ''LA;''] False,
                 parameter_mapping' = \<lparr> map' = [(2, 1), (0, 0), (7, 9)] \<rparr> \<rparr>) \<and>
            at_position (parameter_mapping'
               \<lparr> call_target' = make_method ''LTarget;'' [''I'', ''LA;''] False,
                 parameter_mapping' = \<lparr> map' = [(2, 1), (0, 0), (7, 9)] \<rparr> \<rparr>) p = Some s
            \<longrightarrow> s < srcs_size \<lparr> srcs = [20, 21] \<rparr>"
    by (auto simp: make_method_def logical_parameter_types_def at_position_def um_find_def
          srcs_size_def split: if_splits)
  show ?thesis
    using parameter_registers_partial [OF in_range]
    by (simp add: parameter_registers_def parameter_registers_loop.simps src_def srcs_size_def
          make_method_def logical_parameter_types_def at_position_def um_find_def um_emplace_def)
qed

text \<open>
  Claim C8 as stated covers every target and instruction. Here target position 1 is below the
  parameter count and mapped to shim position 3, but the instruction has a single operand:
  there is no operand to bind, and no map is returned.
\<close>

theorem parameter_registers_counterexample:
  "number_of_parameters (call_target'
        \<lparr> call_target' = make_method ''LTarget;'' [''I'', ''J''] True,
          parameter_mapping' = \<lparr> map' = [(0, 0), (1, 3)] \<rparr> \<rparr>) = 2
   \<and> at_position (parameter_mapping'
        \<lparr> call_target' = make_method ''LTarget;'' [''I'', ''J''] True,
          parameter_mapping' = \<lparr> map' = [(0, 0), (1, 3)] \<rparr> \<rparr>) 1 = Some 3
   \<and> srcs_size \<lparr> srcs = [4] \<rparr> = 1
   \<and> parameter_registers
        \<lparr> call_target' = make_method ''LTarget;'' [''I'', ''J''] True,
          parameter_mapping' = \<lparr> map' = [(0, 0), (1, 3)] \<rparr> \<rparr>
        \<lparr> srcs = [4] \<rparr> = Inl OperandOutOfRange"
  by (simp add: parameter_registers_def parameter_registers_loop.simps src_def srcs_size_def
        make_method_def logical_parameter_types_def at_position_def um_find_def um_emplace_def)

text \<open>
  When every shim position of the mapping is below the number of operands of the instruction,
  neither operation stops: both return.
\<close>

lemma operand_resolution_in_range:
  assumes "\<forall>p s. at_position (parameter_mapping' this) p = Some s \<longrightarrow> s < srcs_size instruction"
  shows "(\<exists>register. receiver_register this instruction = Inr register) \<and>
         (\<exists>registers. parameter_registers this instruction = Inr registers)"
proof
  show "\<exists>register. receiver_register this instruction = Inr register"
    using assms
    by (auto simp: receiver_register_def mt_assert_def src_def split: option.splits)
next
  from assms have "\<forall>p s. p < number_of_parameters (call_target' this) \<and>
      at_position (parameter_mapping' this) p = Some s \<longrightarrow> s < srcs_size instruction"
    by blast
  from parameter_registers_loop_find [OF this, of 0 "[]"]
  show "\<exists>registers. parameter_registers this instruction = Inr registers"
    by (auto simp: parameter_registers_def)
qed

text \<open>
  Claim C6 asks that both operations stop at an assertion when a mapped shim position is at or
  past the number of operands. On the same target and instruction, with shim position 5
  and one operand, \<^verbatim>\<open>receiver_register\<close> stops at its \<^verbatim>\<open>mt_assert\<close>, whereas
  \<^verbatim>\<open>parameter_registers\<close> has no assertion and enters \<^verbatim>\<open>instruction->src(5)\<close>.
\<close>

theorem unchecked_operand_in_parameter_registers:
  "receiver_register
     \<lparr> call_target' = make_method ''LCallback;'' [] False,
       parameter_mapping' = \<lparr> map' = [(0, 5)] \<rparr> \<rparr>
     \<lparr> srcs = [7] \<rparr> = Inl AssertionFailure
   \<and> parameter_registers
     \<lparr> call_target' = make_method ''LCallback;'' [] False,
       parameter_mapping' = \<lparr> map' = [(0, 5)] \<rparr> \<rparr>
     \<lparr> srcs = [7] \<rparr> = Inl OperandOutOfRange"
  by (simp add: receiver_register_def mt_assert_def
        parameter_registers_def parameter_registers_loop.simps src_def srcs_size_def
        make_method_def logical_parameter_types_def at_position_def um_find_def um_emplace_def)

end
